theory Spec2Isabelle
  imports Main "HOL-Library.Sublist"
begin

section \<open>Data model\<close>

text \<open>
  The \<open>Hero\<close> interface of the application: \<open>{ id: number, name: string }\<close>. The
  component creates heroes without an id (\<open>{ name } as Hero\<close>), so the id is optional;
  \<open>None\<close> is JavaScript's \<open>undefined\<close>. The fields are called \<open>hero_id\<close> and
  \<open>hero_name\<close> because \<open>id\<close> is the identity function of HOL. Ids are whole numbers.
\<close>

record hero =
  hero_id :: "int option"
  hero_name :: string

text \<open>The error object an HTTP call fails with; the service reads its \<open>message\<close>.\<close>

record http_error =
  status :: int
  message :: string

datatype http_method = GET | POST | PUT | DELETE

text \<open>One call made on the \<open>HttpClient\<close>: method, URL, body and the headers passed.\<close>

record request =
  req_method :: http_method
  req_url :: string
  req_body :: "hero option"
  req_headers :: "(string \<times> string) list"

text \<open>
  What the transport answers to one request: a body, a failure, or nothing at all
  (a request that never resolves).
\<close>

datatype 'a response = Ok 'a | Fail http_error | Hung

text \<open>
  The state that the service and the list component act on:
  \<^item> \<open>messages\<close>: the texts held by the \<open>MessageService\<close>;
  \<^item> \<open>console\<close>: the values written with \<open>console.error\<close>;
  \<^item> \<open>requests\<close>: the calls issued on the \<open>HttpClient\<close>, in order;
  \<^item> \<open>objects\<close>, \<open>fresh\<close>: the \<open>Hero\<close> objects the component holds, by address, and
    the next unused address (the component compares heroes by reference);
  \<^item> \<open>heroes\<close>: the field \<open>HeroesComponent.heroes\<close>. It is declared without an
    initialiser, so it is \<open>undefined\<close> (\<open>None\<close>) until a list arrives; its elements are
    references to objects, or \<open>undefined\<close> (\<open>None\<close>).
\<close>

record app =
  messages :: "string list"
  console :: "http_error list"
  requests :: "request list"
  objects :: "nat \<Rightarrow> hero"
  fresh :: nat
  heroes :: "nat option list option"

section \<open>Strings\<close>

text \<open>
  \<open>String.prototype.trim\<close> removes white space and line terminators from both ends.
  Characters are code units below 256 here; of the characters that JavaScript trims
  these are tab, line feed, vertical tab, form feed, carriage return, space and the
  no-break space.
\<close>

definition is_white_space :: "char \<Rightarrow> bool" where
  "is_white_space c =
     (c = CHR 0x09 \<or> c = CHR 0x0A \<or> c = CHR 0x0B \<or> c = CHR 0x0C \<or> c = CHR 0x0D
      \<or> c = CHR 0x20 \<or> c = CHR 0xA0)"

definition trim :: "string \<Rightarrow> string" where
  "trim s = rev (dropWhile is_white_space (rev (dropWhile is_white_space s)))"

text \<open>A string is falsy exactly when it is empty; \<open>!s\<close> is then true.\<close>

definition falsy :: "string \<Rightarrow> bool" where
  "falsy s = (s = [])"

text \<open>A whole number inside a template literal: decimal digits, with a minus sign.\<close>

definition digit_char :: "nat \<Rightarrow> char" where
  "digit_char n = char_of (48 + n)"

fun digits :: "nat \<Rightarrow> string" where
  "digits n = (if n < 10 then [digit_char n] else digits (n div 10) @ [digit_char (n mod 10)])"

declare digits.simps [simp del]

definition number_string :: "int \<Rightarrow> string" where
  "number_string i = (if i < 0 then ''-'' @ digits (nat (- i)) else digits (nat i))"

text \<open>\<open>${id}\<close> where the id may be missing: \<open>undefined\<close> prints as the word.\<close>

definition id_string :: "int option \<Rightarrow> string" where
  "id_string i = (case i of None \<Rightarrow> ''undefined'' | Some n \<Rightarrow> number_string n)"

definition quoted :: "string \<Rightarrow> string" where
  "quoted s = [CHR 0x22] @ s @ [CHR 0x22]"

section \<open>Observables\<close>

text \<open>
  Every observable of the service delivers one notification at most: a value (and then
  completes), an error, or nothing. An observable is cold: its effects happen when it is
  subscribed to, so it is a function of the state at that moment.
\<close>

datatype 'a notification = Emits 'a | Throws http_error | Silent

type_synonym 'a observable = "app \<Rightarrow> 'a notification \<times> app"

text \<open>\<open>of(v)\<close>; the name \<open>of\<close> is taken by the syntax of HOL.\<close>

definition of_obs :: "'a \<Rightarrow> 'a observable" where
  "of_obs v = (\<lambda>s. (Emits v, s))"

text \<open>\<open>tap(f)\<close> runs \<open>f\<close> on a value that passes and hands the value on untouched.\<close>

definition tap :: "('a \<Rightarrow> app \<Rightarrow> app) \<Rightarrow> 'a observable \<Rightarrow> 'a observable" where
  "tap f src = (\<lambda>s. case src s of
       (Emits v, s') \<Rightarrow> (Emits v, f v s')
     | (Throws e, s') \<Rightarrow> (Throws e, s')
     | (Silent, s') \<Rightarrow> (Silent, s'))"

text \<open>
  \<open>catchError(selector)\<close> replaces a failed observable by the one the selector returns.
  The selector of this service may emit \<open>undefined\<close>, so the values behind
  \<open>catchError\<close> are optional: \<open>Some v\<close> is a value the source emitted.
\<close>

definition catchError ::
  "(http_error \<Rightarrow> 'a option observable) \<Rightarrow> 'a observable \<Rightarrow> 'a option observable" where
  "catchError selector src = (\<lambda>s. case src s of
       (Emits v, s') \<Rightarrow> (Emits (Some v), s')
     | (Throws e, s') \<Rightarrow> selector e s'
     | (Silent, s') \<Rightarrow> (Silent, s'))"

section \<open>Collaborators of the service\<close>

text \<open>
  Modelled from the spec: \<open>MessageService.add\<close> (message.service.ts is not among the
  sources). The spec gives the sink one operation, \<open>add(text)\<close>, append-only.
\<close>

definition messageService_add :: "string \<Rightarrow> app \<Rightarrow> app" where
  "messageService_add text s = s\<lparr>messages := messages s @ [text]\<rparr>"

definition console_error :: "http_error \<Rightarrow> app \<Rightarrow> app" where
  "console_error e s = s\<lparr>console := console s @ [e]\<rparr>"

text \<open>
  The \<open>HttpClient\<close> is a parameter: \<open>backend\<close> says what the transport answers to each
  request. Subscribing issues the request.
\<close>

definition http_call :: "(request \<Rightarrow> 'a response) \<Rightarrow> request \<Rightarrow> 'a observable" where
  "http_call backend req = (\<lambda>s.
     (case backend req of Ok v \<Rightarrow> Emits v | Fail e \<Rightarrow> Throws e | Hung \<Rightarrow> Silent,
      s\<lparr>requests := requests s @ [req]\<rparr>))"

definition httpOptions :: "(string \<times> string) list" where
  "httpOptions = [(''Content-Type'', ''application/json'')]"

definition http_get :: "(request \<Rightarrow> 'a response) \<Rightarrow> string \<Rightarrow> 'a observable" where
  "http_get backend u =
     http_call backend \<lparr>req_method = GET, req_url = u, req_body = None, req_headers = []\<rparr>"

definition http_put ::
  "(request \<Rightarrow> 'a response) \<Rightarrow> string \<Rightarrow> hero \<Rightarrow> (string \<times> string) list \<Rightarrow> 'a observable" where
  "http_put backend u b hs =
     http_call backend \<lparr>req_method = PUT, req_url = u, req_body = Some b, req_headers = hs\<rparr>"

definition http_post ::
  "(request \<Rightarrow> 'a response) \<Rightarrow> string \<Rightarrow> hero \<Rightarrow> (string \<times> string) list \<Rightarrow> 'a observable" where
  "http_post backend u b hs =
     http_call backend \<lparr>req_method = POST, req_url = u, req_body = Some b, req_headers = hs\<rparr>"

definition http_delete ::
  "(request \<Rightarrow> 'a response) \<Rightarrow> string \<Rightarrow> (string \<times> string) list \<Rightarrow> 'a observable" where
  "http_delete backend u hs =
     http_call backend \<lparr>req_method = DELETE, req_url = u, req_body = None, req_headers = hs\<rparr>"

section \<open>HeroService\<close>

definition heroesUrl :: string where
  "heroesUrl = ''api/heroes''"

definition log :: "string \<Rightarrow> app \<Rightarrow> app" where
  "log text = messageService_add (''HeroService: '' @ text)"

text \<open>
  \<open>handleError(operation, result?)\<close>: the handler writes the error to the console, logs
  \<open>operation failed: message\<close> and emits \<open>result\<close>, which is \<open>undefined\<close> (\<open>None\<close>) when
  the caller gave none. Every caller names the operation.
\<close>

definition handleError :: "string \<Rightarrow> 'a option \<Rightarrow> http_error \<Rightarrow> 'a option observable" where
  "handleError operation result = (\<lambda>error s.
     of_obs result (log (operation @ '' failed: '' @ message error) (console_error error s)))"

text \<open>
  \<open>getHeroes()\<close> adds a message at once, when it is called, and returns the observable;
  the request and the rest happen on subscription.
\<close>

definition getHeroes :: "(request \<Rightarrow> hero list response) \<Rightarrow> app \<Rightarrow> hero list option observable \<times> app" where
  "getHeroes backend s =
     (catchError (handleError ''getHeroes'' (Some []))
        (tap (\<lambda>_. log ''fetched heroes'') (http_get backend heroesUrl)),
      messageService_add ''HeroService: fetched heroes'' s)"

definition getHero :: "(request \<Rightarrow> hero response) \<Rightarrow> int \<Rightarrow> hero option observable" where
  "getHero backend i =
     (let u = heroesUrl @ ''/'' @ number_string i in
      catchError (handleError (''getHero id='' @ number_string i) None)
        (tap (\<lambda>_. log (''fetched hero id='' @ number_string i)) (http_get backend u)))"

definition updateHero :: "(request \<Rightarrow> 'a response) \<Rightarrow> hero \<Rightarrow> 'a option observable" where
  "updateHero backend h =
     catchError (handleError ''updateHero'' None)
       (tap (\<lambda>_. log (''updated hero id='' @ id_string (hero_id h)))
          (http_put backend heroesUrl h httpOptions))"

definition addHero :: "(request \<Rightarrow> hero response) \<Rightarrow> hero \<Rightarrow> hero option observable" where
  "addHero backend h =
     catchError (handleError ''addHero'' None)
       (tap (\<lambda>newHero. log (''added hero with id='' @ id_string (hero_id newHero)))
          (http_post backend heroesUrl h httpOptions))"

text \<open>The argument of \<open>deleteHero\<close> is \<open>Hero | number\<close>.\<close>

datatype hero_or_number = A_number int | A_hero hero

text \<open>\<open>typeof hero === 'number' ? hero : hero.id\<close>\<close>

definition resolved_id :: "hero_or_number \<Rightarrow> int option" where
  "resolved_id h = (case h of A_number n \<Rightarrow> Some n | A_hero x \<Rightarrow> hero_id x)"

definition deleteHero :: "(request \<Rightarrow> hero response) \<Rightarrow> hero_or_number \<Rightarrow> hero option observable" where
  "deleteHero backend h =
     (let i = resolved_id h;
          u = heroesUrl @ ''/'' @ id_string i in
      catchError (handleError ''deleteHero'' None)
        (tap (\<lambda>_. log (''deleted hero id='' @ id_string i))
           (http_delete backend u httpOptions)))"

definition searchHeroes :: "(request \<Rightarrow> hero list response) \<Rightarrow> string \<Rightarrow> hero list option observable" where
  "searchHeroes backend term =
     (if falsy (trim term) then of_obs (Some [])
      else catchError (handleError ''searchHeroes'' (Some []))
        (tap (\<lambda>x. if length x \<noteq> 0
                   then log (''found heroes matching '' @ quoted term)
                   else log (''no heroes matching '' @ quoted term))
           (http_get backend (heroesUrl @ ''/?name='' @ term))))"

text \<open>The request each operation issues when its observable is subscribed to.\<close>

definition list_request :: request where
  "list_request = \<lparr>req_method = GET, req_url = ''api/heroes'', req_body = None, req_headers = []\<rparr>"

definition get_request :: "int \<Rightarrow> request" where
  "get_request i =
     \<lparr>req_method = GET, req_url = ''api/heroes/'' @ number_string i, req_body = None,
      req_headers = []\<rparr>"

definition search_request :: "string \<Rightarrow> request" where
  "search_request term =
     \<lparr>req_method = GET, req_url = ''api/heroes/?name='' @ term, req_body = None,
      req_headers = []\<rparr>"

definition create_request :: "hero \<Rightarrow> request" where
  "create_request h =
     \<lparr>req_method = POST, req_url = ''api/heroes'', req_body = Some h,
      req_headers = [(''Content-Type'', ''application/json'')]\<rparr>"

definition delete_request :: "int option \<Rightarrow> request" where
  "delete_request i =
     \<lparr>req_method = DELETE, req_url = ''api/heroes/'' @ id_string i, req_body = None,
      req_headers = [(''Content-Type'', ''application/json'')]\<rparr>"

text \<open>
  \<open>getHeroes()\<close> called and subscribed to at once, as \<open>HeroesComponent.getHeroes\<close> does.
\<close>

definition getHeroes_subscribed ::
  "(request \<Rightarrow> hero list response) \<Rightarrow> app \<Rightarrow> hero list option notification \<times> app" where
  "getHeroes_subscribed backend s = (case getHeroes backend s of (obs, s1) \<Rightarrow> obs s1)"

text \<open>
  The texts a run has added to the message sink, and the test for a failure log of an
  operation: the text that \<open>log\<close> makes of \<open>operation failed: ...\<close>.
\<close>

definition added_messages :: "app \<Rightarrow> app \<Rightarrow> string list" where
  "added_messages s s' = drop (length (messages s)) (messages s')"

definition failure_log :: "string \<Rightarrow> string \<Rightarrow> bool" where
  "failure_log operation text = prefix (''HeroService: '' @ operation @ '' failed: '') text"

definition recovered ::
  "string \<Rightarrow> 'a option \<Rightarrow> http_error \<Rightarrow> app \<Rightarrow> 'a option notification \<times> app \<Rightarrow> bool" where
  "recovered operation F e s r =
     (fst r = Emits F
      \<and> console (snd r) = console s @ [e]
      \<and> take (length (messages s)) (messages (snd r)) = messages s
      \<and> filter (failure_log operation) (added_messages s (snd r)) =
          [''HeroService: '' @ operation @ '' failed: '' @ message e])"

section \<open>HeroesComponent\<close>

text \<open>
  What can go wrong in the component: a method called on \<open>undefined\<close>, or an error
  notification reaching a subscriber that has no error callback.
\<close>

datatype js_error = TypeError | Unhandled http_error

definition subscribe ::
  "'a observable \<Rightarrow> ('a \<Rightarrow> app \<Rightarrow> js_error + app) \<Rightarrow> app \<Rightarrow> js_error + app" where
  "subscribe obs next s = (case obs s of
       (Emits v, s') \<Rightarrow> next v s'
     | (Throws e, s') \<Rightarrow> Inl (Unhandled e)
     | (Silent, s') \<Rightarrow> Inr s')"

text \<open>
  The transport parses every body into objects of its own. The service only reads their
  fields, so it is modelled on values; a hero becomes an object with an address when it
  reaches the component.
\<close>

definition new_object :: "hero \<Rightarrow> app \<Rightarrow> nat \<times> app" where
  "new_object h s = (fresh s, s\<lparr>objects := (objects s)(fresh s := h), fresh := Suc (fresh s)\<rparr>)"

fun new_objects :: "hero list \<Rightarrow> app \<Rightarrow> nat list \<times> app" where
  "new_objects [] s = ([], s)"
| "new_objects (h # hs) s =
     (case new_object h s of (r, s1) \<Rightarrow>
        (case new_objects hs s1 of (rs, s2) \<Rightarrow> (r # rs, s2)))"

text \<open>\<open>heroes => this.heroes = heroes\<close>\<close>

definition assign_heroes :: "hero list option \<Rightarrow> app \<Rightarrow> js_error + app" where
  "assign_heroes v s = (case v of
       None \<Rightarrow> Inr (s\<lparr>heroes := None\<rparr>)
     | Some hs \<Rightarrow> (case new_objects hs s of (rs, s1) \<Rightarrow> Inr (s1\<lparr>heroes := Some (map Some rs)\<rparr>)))"

definition HeroesComponent_getHeroes :: "(request \<Rightarrow> hero list response) \<Rightarrow> app \<Rightarrow> js_error + app" where
  "HeroesComponent_getHeroes backend s =
     (case getHeroes backend s of (obs, s1) \<Rightarrow> subscribe obs assign_heroes s1)"

text \<open>\<open>hero => { this.heroes.push(hero); }\<close>\<close>

definition push_hero :: "hero option \<Rightarrow> app \<Rightarrow> js_error + app" where
  "push_hero v s = (case heroes s of
       None \<Rightarrow> Inl TypeError
     | Some view \<Rightarrow> (case v of
           None \<Rightarrow> Inr (s\<lparr>heroes := Some (view @ [None])\<rparr>)
         | Some h \<Rightarrow> (case new_object h s of (r, s1) \<Rightarrow>
               Inr (s1\<lparr>heroes := Some (view @ [Some r])\<rparr>))))"

definition HeroesComponent_add :: "(request \<Rightarrow> hero response) \<Rightarrow> string \<Rightarrow> app \<Rightarrow> js_error + app" where
  "HeroesComponent_add backend name s =
     (let name = trim name in
      if falsy name then Inr s
      else subscribe (addHero backend \<lparr>hero_id = None, hero_name = name\<rparr>) push_hero s)"

text \<open>
  \<open>delete(hero)\<close> takes a reference to a hero object; \<open>h !== hero\<close> compares references.
  The subscription to \<open>deleteHero\<close> has no callback.
\<close>

definition HeroesComponent_delete :: "(request \<Rightarrow> hero response) \<Rightarrow> nat \<Rightarrow> app \<Rightarrow> js_error + app" where
  "HeroesComponent_delete backend hero s = (case heroes s of
       None \<Rightarrow> Inl TypeError
     | Some view \<Rightarrow>
         subscribe (deleteHero backend (A_hero (objects s hero))) (\<lambda>_ s'. Inr s')
           (s\<lparr>heroes := Some (filter (\<lambda>h. h \<noteq> Some hero) view)\<rparr>))"

text \<open>The ids of the hero objects in the view, in order.\<close>

definition view_ids :: "app \<Rightarrow> int option list" where
  "view_ids s = (case heroes s of
       None \<Rightarrow> []
     | Some view \<Rightarrow> concat (map (\<lambda>h. case h of None \<Rightarrow> [] | Some r \<Rightarrow> [hero_id (objects s r)]) view))"

text \<open>A state to run examples in: nothing logged, nothing requested, no list loaded.\<close>

definition start :: app where
  "start = \<lparr>messages = [], console = [], requests = [],
     objects = (\<lambda>_. \<lparr>hero_id = None, hero_name = []\<rparr>), fresh = 0, heroes = None\<rparr>"

section \<open>HeroSearchComponent\<close>

text \<open>
  The search terms pushed into the subject, as a history: each term with the time (in
  milliseconds) of its \<open>search(term)\<close> call, in the order of the calls. The subject never
  completes, and time runs on after the last term.
\<close>

type_synonym 'a timed = "nat \<times> 'a"

text \<open>
  Modelled from the spec: the RxJS operator \<open>debounceTime\<close> (library code, not among the
  sources). A term is held back until no new term has arrived for the quiet interval
  \<open>d\<close>, and then passes, at that moment; a term that is followed by another one sooner
  is dropped. A term that arrives exactly when the interval ends counts as after it
  (the spec leaves that instant open).
\<close>

fun debounceTime :: "nat \<Rightarrow> 'a timed list \<Rightarrow> 'a timed list" where
  "debounceTime d [] = []"
| "debounceTime d [(t, v)] = [(t + d, v)]"
| "debounceTime d ((t, v) # (t', v') # es) =
     (if t + d \<le> t' then (t + d, v) # debounceTime d ((t', v') # es)
      else debounceTime d ((t', v') # es))"

text \<open>
  Modelled from the spec: the RxJS operator \<open>distinctUntilChanged\<close>. A term equal to the
  one that passed last is dropped.
\<close>

fun distinctUntilChanged :: "'a timed list \<Rightarrow> 'a timed list" where
  "distinctUntilChanged [] = []"
| "distinctUntilChanged [e] = [e]"
| "distinctUntilChanged ((t, v) # (t', v') # es) =
     (if v = v' then distinctUntilChanged ((t, v) # es)
      else (t, v) # distinctUntilChanged ((t', v') # es))"

text \<open>
  Modelled from the spec: the RxJS operator \<open>switchMap\<close>. Each value that reaches it is
  projected to an inner observable, subscribed to at once; the subscription ends when
  the next value reaches the operator. \<open>project t v until\<close> runs the inner observable
  from time \<open>t\<close> to time \<open>until\<close> (for ever when there is no next value) and gives what
  it delivers in that time, with the time of delivery. A result is recorded as
  (time observed, time dispatched, value).
\<close>

fun switchMap ::
  "(nat \<Rightarrow> 'a \<Rightarrow> nat option \<Rightarrow> app \<Rightarrow> (nat \<times> 'b) option \<times> app) \<Rightarrow> 'a timed list \<Rightarrow> app
     \<Rightarrow> (nat \<times> nat \<times> 'b) list \<times> app" where
  "switchMap project [] s = ([], s)"
| "switchMap project [(t, v)] s =
     (case project t v None s of
        (None, s') \<Rightarrow> ([], s')
      | (Some (r, x), s') \<Rightarrow> ([(r, t, x)], s'))"
| "switchMap project ((t, v) # (t', v') # es) s =
     (case project t v (Some t') s of (out, s') \<Rightarrow>
        (case switchMap project ((t', v') # es) s' of (rest, s'') \<Rightarrow>
           ((case out of None \<Rightarrow> [] | Some (r, x) \<Rightarrow> [(r, t, x)]) @ rest, s'')))"

text \<open>
  The network in time: \<open>net t req\<close> is the delay and the answer of the transport to a
  request issued at time \<open>t\<close>. A blank term is answered by \<open>of([])\<close>, synchronously.
\<close>

definition arrival_time :: "(nat \<Rightarrow> request \<Rightarrow> nat \<times> 'a response) \<Rightarrow> nat \<Rightarrow> string \<Rightarrow> nat" where
  "arrival_time net t term =
     (if falsy (trim term) then t else t + fst (net t (search_request term)))"

text \<open>
  \<open>(term: string) => this.heroService.searchHeroes(term)\<close>, subscribed to at time \<open>t\<close>
  and unsubscribed from at time \<open>until\<close>. A subscription that ends before the answer
  has come sees no answer: the request is issued, and nothing follows.
\<close>

definition search_inner ::
  "(nat \<Rightarrow> request \<Rightarrow> nat \<times> hero list response) \<Rightarrow> nat \<Rightarrow> string \<Rightarrow> nat option \<Rightarrow> app
     \<Rightarrow> (nat \<times> hero list option) option \<times> app" where
  "search_inner net t term until s =
     (let in_time = (falsy (trim term)
            \<or> (case until of None \<Rightarrow> True | Some t' \<Rightarrow> arrival_time net t term < t'))
      in case searchHeroes (if in_time then (\<lambda>req. snd (net t req)) else (\<lambda>_. Hung)) term s of
           (Emits v, s') \<Rightarrow> (Some (arrival_time net t term, v), s')
         | (Throws e, s') \<Rightarrow> (None, s')
         | (Silent, s') \<Rightarrow> (None, s'))"

text \<open>
  The calls \<open>heroService.searchHeroes(term)\<close> that \<open>ngOnInit\<close>'s pipeline makes for a
  history of terms, with their times: what passes \<open>debounceTime(300)\<close> and
  \<open>distinctUntilChanged()\<close>.
\<close>

definition dispatched :: "string timed list \<Rightarrow> string timed list" where
  "dispatched input = distinctUntilChanged (debounceTime 300 input)"

text \<open>\<open>heroes$\<close>: what a subscriber observes, and the state afterwards.\<close>

definition heroes_stream ::
  "(nat \<Rightarrow> request \<Rightarrow> nat \<times> hero list response) \<Rightarrow> string timed list \<Rightarrow> app
     \<Rightarrow> (nat \<times> nat \<times> hero list option) list \<times> app" where
  "heroes_stream net input s = switchMap (search_inner net) (dispatched input) s"

definition observed_at :: "nat \<times> nat \<times> 'b \<Rightarrow> nat" where
  "observed_at r = fst r"

definition dispatched_at :: "nat \<times> nat \<times> 'b \<Rightarrow> nat" where
  "dispatched_at r = fst (snd r)"

text \<open>A burst: terms one after the other, each less than \<open>d\<close> after the one before.\<close>

fun burst :: "nat \<Rightarrow> 'a timed list \<Rightarrow> bool" where
  "burst d [] = True"
| "burst d [e] = True"
| "burst d ((t, v) # (t', v') # es) = (t \<le> t' \<and> t' < t + d \<and> burst d ((t', v') # es))"

text \<open>
  What passes the quiet interval out of a stretch of the history when the term that
  follows the stretch arrives at time \<open>n\<close>.
\<close>

fun debounce_until :: "nat \<Rightarrow> 'a timed list \<Rightarrow> nat \<Rightarrow> 'a timed list" where
  "debounce_until d [] n = []"
| "debounce_until d [(t, v)] n = (if t + d \<le> n then [(t + d, v)] else [])"
| "debounce_until d ((t, v) # (t', v') # es) n =
     (if t + d \<le> t' then (t + d, v) # debounce_until d ((t', v') # es) n
      else debounce_until d ((t', v') # es) n)"

text \<open>
  A dispatched search stems from a term of the burst \<open>b\<close> when it is dispatched 300 ms
  after that term was submitted.
\<close>

definition from_burst :: "'a timed list \<Rightarrow> 'a timed \<Rightarrow> bool" where
  "from_burst b r = (fst r \<in> set (map (\<lambda>e. fst e + 300) b))"

section \<open>Example states and values\<close>

definition alpha :: hero where
  "alpha = \<lparr>hero_id = Some 42, hero_name = ''Alpha''\<rparr>"

text \<open>A network that answers the search for \<open>a\<close> after 500 ms and any other after 100 ms.\<close>

definition slow_net :: "nat \<Rightarrow> request \<Rightarrow> nat \<times> hero list response" where
  "slow_net t req =
     (if req_url req = ''api/heroes/?name=a'' then (500, Ok []) else (100, Ok [alpha]))"

definition typing :: "string timed list" where
  "typing = [(0, ''a''), (400, ''ab'')]"

definition keystrokes :: "string timed list" where
  "keystrokes = [(1000, ''b''), (1100, ''ba''), (1250, ''bat'')]"

definition boom :: http_error where
  "boom = \<lparr>status = 500, message = ''boom''\<rparr>"

text \<open>A view of two different objects that carry the same id.\<close>

definition twins :: app where
  "twins = start\<lparr>
     objects := (objects start)
       (0 := \<lparr>hero_id = Some 42, hero_name = ''Alpha''\<rparr>,
        1 := \<lparr>hero_id = Some 42, hero_name = ''Beta''\<rparr>),
     fresh := 2,
     heroes := Some [Some 0, Some 1]\<rparr>"

definition solo :: app where
  "solo = start\<lparr>
     objects := (objects start)
       (0 := \<lparr>hero_id = Some 42, hero_name = ''Alpha''\<rparr>,
        1 := \<lparr>hero_id = Some 7, hero_name = ''Nova''\<rparr>),
     fresh := 2,
     heroes := Some [Some 0, Some 1]\<rparr>"

section \<open>The pipe of every operation\<close>

lemmas pipe_defs = catchError_def tap_def http_get_def http_put_def http_post_def http_delete_def
  http_call_def handleError_def of_obs_def log_def messageService_add_def console_error_def

lemma failed_pipe:
  "backend req = Fail e \<Longrightarrow>
   catchError (handleError operation F) (tap f (http_call backend req)) s =
     (Emits F, s\<lparr>requests := requests s @ [req], console := console s @ [e],
        messages := messages s @ [''HeroService: '' @ operation @ '' failed: '' @ message e]\<rparr>)"
  by (simp add: pipe_defs)

lemma ok_pipe:
  "backend req = Ok v \<Longrightarrow>
   catchError (handleError operation F) (tap f (http_call backend req)) s =
     (Emits (Some v), f v (s\<lparr>requests := requests s @ [req]\<rparr>))"
  by (simp add: pipe_defs)

lemma hung_pipe:
  "backend req = Hung \<Longrightarrow>
   catchError (handleError operation F) (tap f (http_call backend req)) s =
     (Silent, s\<lparr>requests := requests s @ [req]\<rparr>)"
  by (simp add: pipe_defs)

lemma failed_pipe_recovered:
  "backend req = Fail e \<Longrightarrow>
   recovered operation F e s (catchError (handleError operation F) (tap f (http_call backend req)) s)"
  by (simp add: failed_pipe recovered_def added_messages_def failure_log_def)

lemma getHeroes_failed:
  "backend list_request = Fail e \<Longrightarrow>
   getHeroes_subscribed backend s =
     (Emits (Some []), s\<lparr>requests := requests s @ [list_request], console := console s @ [e],
        messages := messages s @ [''HeroService: fetched heroes'',
          ''HeroService: getHeroes failed: '' @ message e]\<rparr>)"
  by (simp add: getHeroes_subscribed_def getHeroes_def list_request_def heroesUrl_def pipe_defs)

lemma getHeroes_ok:
  "backend list_request = Ok S \<Longrightarrow>
   getHeroes_subscribed backend s =
     (Emits (Some S), s\<lparr>requests := requests s @ [list_request],
        messages := messages s @ [''HeroService: fetched heroes'', ''HeroService: fetched heroes'']\<rparr>)"
  by (simp add: getHeroes_subscribed_def getHeroes_def list_request_def heroesUrl_def pipe_defs)

lemma getHeroes_recovered:
  "backend list_request = Fail e \<Longrightarrow>
   recovered ''getHeroes'' (Some []) e s (getHeroes_subscribed backend s)"
  by (simp add: getHeroes_failed recovered_def added_messages_def failure_log_def)

lemma getHero_pipe:
  "getHero backend i =
     catchError (handleError (''getHero id='' @ number_string i) None)
       (tap (\<lambda>_. log (''fetched hero id='' @ number_string i)) (http_call backend (get_request i)))"
  by (simp add: getHero_def get_request_def heroesUrl_def http_get_def Let_def)

lemma deleteHero_pipe:
  "deleteHero backend h =
     catchError (handleError ''deleteHero'' None)
       (tap (\<lambda>_. log (''deleted hero id='' @ id_string (resolved_id h)))
          (http_call backend (delete_request (resolved_id h))))"
  by (simp add: deleteHero_def delete_request_def heroesUrl_def http_delete_def httpOptions_def Let_def)

lemma searchHeroes_pipe:
  "\<not> falsy (trim term) \<Longrightarrow> searchHeroes backend term =
     catchError (handleError ''searchHeroes'' (Some []))
        (tap (\<lambda>x. if length x \<noteq> 0
                   then log (''found heroes matching '' @ quoted term)
                   else log (''no heroes matching '' @ quoted term))
           (http_call backend (search_request term)))"
  by (simp add: searchHeroes_def search_request_def heroesUrl_def http_get_def)

lemma addHero_pipe:
  "addHero backend h =
     catchError (handleError ''addHero'' None)
       (tap (\<lambda>newHero. log (''added hero with id='' @ id_string (hero_id newHero)))
          (http_call backend (create_request h)))"
  by (simp add: addHero_def create_request_def heroesUrl_def http_post_def httpOptions_def)

lemma not_blank_bat: "\<not> falsy (trim ''bat'')"
  by (simp add: falsy_def trim_def is_white_space_def)

lemma trim_spaces: "trim ''   '' = []"
  by (simp add: trim_def is_white_space_def)

lemma trim_nova: "trim '' Nova '' = ''Nova''"
  by (simp add: trim_def is_white_space_def)

section \<open>The service recovers from failures\<close>

text \<open>
  C1. When the HTTP call of \<open>getHeroes\<close>, \<open>getHero\<close>, \<open>searchHeroes\<close> or \<open>deleteHero\<close>
  fails with an error \<open>e\<close>, the observable does not fail: it emits the fallback of the
  operation (the empty list for the list and the search, \<open>undefined\<close> for the other
  two), \<open>e\<close> is written to the console once, the messages already in the sink stay, and
  of the messages added exactly one is a failure log of the operation, namely
  \<open>HeroService: operation failed: message\<close>. The operation name of \<open>getHero\<close> includes
  the id. (\<open>getHeroes\<close> adds its \<open>fetched heroes\<close> message as well; it is no failure log.)
\<close>

theorem failed_operation_recovers:
  "(backend_l list_request = Fail e \<longrightarrow>
      recovered ''getHeroes'' (Some []) e s (getHeroes_subscribed backend_l s))
   \<and> (backend_h (get_request i) = Fail e \<longrightarrow>
      recovered (''getHero id='' @ number_string i) None e s (getHero backend_h i s))
   \<and> (\<not> falsy (trim term) \<longrightarrow> backend_l (search_request term) = Fail e \<longrightarrow>
      recovered ''searchHeroes'' (Some []) e s (searchHeroes backend_l term s))
   \<and> (backend_h (delete_request (resolved_id h)) = Fail e \<longrightarrow>
      recovered ''deleteHero'' None e s (deleteHero backend_h h s))"
proof (intro conjI impI)
  assume "backend_l list_request = Fail e"
  then show "recovered ''getHeroes'' (Some []) e s (getHeroes_subscribed backend_l s)"
    by (rule getHeroes_recovered)
next
  assume "backend_h (get_request i) = Fail e"
  then show "recovered (''getHero id='' @ number_string i) None e s (getHero backend_h i s)"
    by (simp add: getHero_pipe failed_pipe_recovered)
next
  assume "\<not> falsy (trim term)" and "backend_l (search_request term) = Fail e"
  then show "recovered ''searchHeroes'' (Some []) e s (searchHeroes backend_l term s)"
    by (simp add: searchHeroes_pipe failed_pipe_recovered)
next
  assume "backend_h (delete_request (resolved_id h)) = Fail e"
  then show "recovered ''deleteHero'' None e s (deleteHero backend_h h s)"
    by (simp add: deleteHero_pipe failed_pipe_recovered)
qed

theorem failed_operation_recovers_witness:
  "recovered ''getHeroes'' (Some []) boom start (getHeroes_subscribed (\<lambda>_. Fail boom) start)
   \<and> recovered (''getHero id='' @ number_string 5) None boom start (getHero (\<lambda>_. Fail boom) 5 start)
   \<and> \<not> falsy (trim ''bat'')
   \<and> recovered ''searchHeroes'' (Some []) boom start (searchHeroes (\<lambda>_. Fail boom) ''bat'' start)
   \<and> recovered ''deleteHero'' None boom start (deleteHero (\<lambda>_. Fail boom) (A_number 42) start)"
  using failed_operation_recovers
          [of "\<lambda>_. Fail boom" boom start "\<lambda>_. Fail boom" 5 "''bat''" "A_number 42"]
    not_blank_bat
  by simp

section \<open>Searching for a blank term\<close>

text \<open>
  C4. For a term whose trimmed value is the empty string, \<open>searchHeroes\<close> emits the
  empty list at once and leaves the state as it was: no request is issued and no message
  is logged.
\<close>

theorem blank_search_short_circuits:
  "trim term = [] \<Longrightarrow> searchHeroes backend term s = (Emits (Some []), s)"
  by (simp add: searchHeroes_def falsy_def of_obs_def)

theorem blank_search_short_circuits_witness:
  "trim ''   '' = []
   \<and> searchHeroes (\<lambda>_. Ok [\<lparr>hero_id = Some 1, hero_name = ''Batman''\<rparr>]) ''   '' start
       = (Emits (Some []), start)"
  using blank_search_short_circuits
          [of "''   ''" "\<lambda>_. Ok [\<lparr>hero_id = Some 1, hero_name = ''Batman''\<rparr>]" start]
    trim_spaces
  by simp

section \<open>Listing the heroes\<close>

text \<open>
  C5. A successful \<open>getHeroes\<close> emits the list that the transport returned, here the
  empty list, and adds the message \<open>HeroService: fetched heroes\<close> to the sink twice:
  once when it is called and once when the list arrives.
\<close>

theorem getHeroes_logs_twice:
  "fst (getHeroes_subscribed (\<lambda>_. Ok []) start) = Emits (Some [])
   \<and> added_messages start (snd (getHeroes_subscribed (\<lambda>_. Ok []) start)) =
       [''HeroService: fetched heroes'', ''HeroService: fetched heroes'']"
  by (simp add: getHeroes_ok added_messages_def start_def)

section \<open>Deleting on the server\<close>

text \<open>
  C8. \<open>deleteHero\<close> takes a number or a hero. The id is the number itself or the hero's
  \<open>id\<close>; the request issued is \<open>DELETE api/heroes/id\<close> for that id. When the call
  succeeds the body is emitted and \<open>deleted hero id=id\<close> is logged; when it fails
  \<open>undefined\<close> is emitted, the error is written to the console and
  \<open>deleteHero failed: message\<close> is logged.
\<close>

theorem deleteHero_contract:
  "resolved_id (A_number n) = Some n
   \<and> resolved_id (A_hero x) = hero_id x
   \<and> requests (snd (deleteHero backend h s)) = requests s @ [delete_request (resolved_id h)]
   \<and> req_method (delete_request (resolved_id h)) = DELETE
   \<and> req_url (delete_request (resolved_id h)) = heroesUrl @ ''/'' @ id_string (resolved_id h)
   \<and> (backend (delete_request (resolved_id h)) = Ok v \<longrightarrow>
        fst (deleteHero backend h s) = Emits (Some v)
        \<and> console (snd (deleteHero backend h s)) = console s
        \<and> messages (snd (deleteHero backend h s)) =
            messages s @ [''HeroService: deleted hero id='' @ id_string (resolved_id h)])
   \<and> (backend (delete_request (resolved_id h)) = Fail e \<longrightarrow>
        fst (deleteHero backend h s) = Emits None
        \<and> console (snd (deleteHero backend h s)) = console s @ [e]
        \<and> messages (snd (deleteHero backend h s)) =
            messages s @ [''HeroService: deleteHero failed: '' @ message e])"
  by (cases "backend (delete_request (resolved_id h))")
     (simp_all add: deleteHero_pipe ok_pipe failed_pipe hung_pipe resolved_id_def
        delete_request_def heroesUrl_def log_def messageService_add_def)

lemma id_string_42: "id_string (Some 42) = ''42''"
  by code_simp

theorem deleteHero_contract_witness:
  "fst (deleteHero (\<lambda>_. Ok alpha) (A_number 42) start) = Emits (Some alpha)
   \<and> requests (snd (deleteHero (\<lambda>_. Ok alpha) (A_number 42) start)) = [delete_request (Some 42)]
   \<and> req_url (delete_request (Some 42)) = ''api/heroes/42''
   \<and> messages (snd (deleteHero (\<lambda>_. Ok alpha) (A_number 42) start)) =
       [''HeroService: deleted hero id=42'']
   \<and> fst (deleteHero (\<lambda>_. Fail boom) (A_hero alpha) start) = Emits None
   \<and> requests (snd (deleteHero (\<lambda>_. Fail boom) (A_hero alpha) start)) = [delete_request (Some 42)]
   \<and> console (snd (deleteHero (\<lambda>_. Fail boom) (A_hero alpha) start)) = [boom]
   \<and> messages (snd (deleteHero (\<lambda>_. Fail boom) (A_hero alpha) start)) =
       [''HeroService: deleteHero failed: boom'']"
  using deleteHero_contract [of 42 alpha "\<lambda>_. Ok alpha" "A_number 42" start alpha boom]
    deleteHero_contract [of 42 alpha "\<lambda>_. Fail boom" "A_hero alpha" start alpha boom]
    id_string_42
  by (simp add: alpha_def start_def boom_def heroesUrl_def)

section \<open>Deleting from the view\<close>

lemma subscribe_deleteHero:
  "\<exists>s'. subscribe (deleteHero backend h) (\<lambda>_ s'. Inr s') s = Inr s'
        \<and> heroes s' = heroes s \<and> objects s' = objects s"
  by (cases "backend (delete_request (resolved_id h))")
     (simp_all add: subscribe_def deleteHero_pipe ok_pipe failed_pipe hung_pipe log_def
        messageService_add_def)

lemma view_ids_filter:
  assumes "heroes s' = Some (filter (\<lambda>h. h \<noteq> Some hero) view)" and "objects s' = objects s"
    and "\<forall>r. Some r \<in> set view \<longrightarrow> r \<noteq> hero \<longrightarrow> hero_id (objects s r) \<noteq> i"
  shows "i \<notin> set (view_ids s')"
  using assms by (auto simp add: view_ids_def split: option.splits)

text \<open>
  C6, as stated, fails: the view \<open>twins\<close> holds two different objects with id 42.
  Deleting the first one, with a backend that confirms the deletion, leaves the second
  one in the view, so the view still contains an entity with id 42.
\<close>

theorem delete_leaves_twin:
  "heroes twins = Some [Some 0, Some 1]
   \<and> hero_id (objects twins 0) = Some 42
   \<and> view_ids twins = [Some 42, Some 42]
   \<and> map_sum id view_ids (HeroesComponent_delete (\<lambda>_. Ok alpha) 0 twins) = Inr [Some 42]"
  by (simp add: twins_def start_def view_ids_def HeroesComponent_delete_def subscribe_def
      deleteHero_pipe ok_pipe log_def messageService_add_def)

text \<open>
  C6, amended. \<open>delete(hero)\<close> on a view removes every occurrence of that object,
  compared by reference, at once and whatever the backend answers, also when it never
  answers or fails. If no other object in the view carries the id of the deleted one,
  the view contains no entity with that id afterwards.
\<close>

theorem delete_removes_reference:
  assumes "heroes s = Some view"
  shows "\<exists>s'. HeroesComponent_delete backend hero s = Inr s'
           \<and> heroes s' = Some (filter (\<lambda>h. h \<noteq> Some hero) view)
           \<and> ((\<forall>r. Some r \<in> set view \<longrightarrow> r \<noteq> hero
                  \<longrightarrow> hero_id (objects s r) \<noteq> hero_id (objects s hero))
                \<longrightarrow> hero_id (objects s hero) \<notin> set (view_ids s'))"
proof -
  let ?s1 = "s\<lparr>heroes := Some (filter (\<lambda>h. h \<noteq> Some hero) view)\<rparr>"
  obtain s' where run:
      "subscribe (deleteHero backend (A_hero (objects s hero))) (\<lambda>_ s'. Inr s') ?s1 = Inr s'"
    and view: "heroes s' = heroes ?s1" and objs: "objects s' = objects ?s1"
    using subscribe_deleteHero by blast
  have "HeroesComponent_delete backend hero s = Inr s'"
    using assms run by (simp add: HeroesComponent_delete_def)
  moreover have v: "heroes s' = Some (filter (\<lambda>h. h \<noteq> Some hero) view)"
    using view by simp
  moreover have "(\<forall>r. Some r \<in> set view \<longrightarrow> r \<noteq> hero
                  \<longrightarrow> hero_id (objects s r) \<noteq> hero_id (objects s hero))
                \<longrightarrow> hero_id (objects s hero) \<notin> set (view_ids s')"
    using view_ids_filter [OF v, of s] objs by simp
  ultimately show ?thesis by blast
qed

theorem delete_removes_reference_witness:
  "heroes solo = Some [Some 0, Some 1]
   \<and> (\<exists>s'. HeroesComponent_delete (\<lambda>_. Hung) 0 solo = Inr s'
         \<and> heroes s' = Some [Some 1]
         \<and> Some 42 \<notin> set (view_ids s'))"
proof -
  have h: "heroes solo = Some [Some 0, Some 1]"
    by (simp add: solo_def)
  have u: "\<forall>r. Some r \<in> set [Some 0, Some 1] \<longrightarrow> r \<noteq> 0
             \<longrightarrow> hero_id (objects solo r) \<noteq> hero_id (objects solo 0)"
    by (simp add: solo_def)
  have i: "hero_id (objects solo 0) = Some 42"
    by (simp add: solo_def)
  show ?thesis
    using delete_removes_reference [OF h, of "\<lambda>_. Hung" 0] h u i by simp
qed

section \<open>Adding to the view\<close>

text \<open>
  C9, as stated, fails: \<open>heroes\<close> is declared without an initialiser, so in the state
  \<open>start\<close>, before any list has arrived, the view is \<open>undefined\<close>. There \<open>add\<close> with a
  name that is not blank and a create call that fails ends in a \<open>TypeError\<close>, thrown by
  \<open>this.heroes.push\<close>: no view has grown by an element.
\<close>

theorem failed_add_before_list_throws:
  "heroes start = None
   \<and> trim ''Nova'' = ''Nova''
   \<and> HeroesComponent_add (\<lambda>_. Fail boom) ''Nova'' start = Inl TypeError"
  by (simp add: HeroesComponent_add_def falsy_def subscribe_def addHero_pipe failed_pipe
      push_hero_def start_def trim_def is_white_space_def)

text \<open>
  C9, amended. When the name is not blank, the create call fails and the view has been
  assigned (\<open>this.heroes\<close> is an array), \<open>add(name)\<close> appends exactly one element to
  the view, and that element is \<open>undefined\<close>: the fallback of \<open>addHero\<close>. The request
  was issued for the trimmed name, the error went to the console and the failure was
  logged.
\<close>

theorem failed_add_appends_undefined:
  assumes "trim name \<noteq> []"
    and "backend (create_request \<lparr>hero_id = None, hero_name = trim name\<rparr>) = Fail e"
    and "heroes s = Some view"
  shows "HeroesComponent_add backend name s =
           Inr (s\<lparr>requests := requests s @ [create_request \<lparr>hero_id = None, hero_name = trim name\<rparr>],
                  console := console s @ [e],
                  messages := messages s @ [''HeroService: addHero failed: '' @ message e],
                  heroes := Some (view @ [None])\<rparr>)"
  using assms
  by (simp add: HeroesComponent_add_def falsy_def subscribe_def addHero_pipe failed_pipe push_hero_def)

theorem failed_add_appends_undefined_witness:
  "trim '' Nova '' \<noteq> []
   \<and> heroes solo = Some [Some 0, Some 1]
   \<and> map_sum id heroes (HeroesComponent_add (\<lambda>_. Fail boom) '' Nova '' solo)
       = Inr (Some [Some 0, Some 1, None])"
proof -
  have t: "trim '' Nova '' \<noteq> []"
    by (simp add: trim_nova)
  have h: "heroes solo = Some [Some 0, Some 1]"
    by (simp add: solo_def)
  show ?thesis
    using failed_add_appends_undefined [OF t _ h, of "\<lambda>_. Fail boom" boom] t h by simp
qed

text \<open>
  C10. For a name whose trimmed value is the empty string, \<open>add(name)\<close> returns with the
  state as it was: no request is issued and the view is unchanged.
\<close>

theorem blank_add_is_noop:
  "trim name = [] \<Longrightarrow> HeroesComponent_add backend name s = Inr s"
  by (simp add: HeroesComponent_add_def falsy_def)

theorem blank_add_is_noop_witness:
  "trim ''   '' = [] \<and> HeroesComponent_add (\<lambda>_. Hung) ''   '' solo = Inr solo"
  using blank_add_is_noop [of "''   ''" "\<lambda>_. Hung" solo] trim_spaces by simp

section \<open>The quiet interval\<close>

lemma debounceTime_append:
  "ys \<noteq> [] \<Longrightarrow> debounceTime d (xs @ ys) = debounce_until d xs (fst (hd ys)) @ debounceTime d ys"
proof (induction d xs "fst (hd ys)" rule: debounce_until.induct)
  case (1 d)
  then show ?case by simp
next
  case (2 d t v)
  then show ?case by (cases ys) auto
next
  case (3 d t v t' v' es)
  then show ?case by simp
qed

lemma debounce_until_times:
  "r \<in> set (debounce_until d xs n) \<Longrightarrow> fst r \<in> (\<lambda>e. fst e + d) ` set xs"
  by (induction d xs n rule: debounce_until.induct) (auto split: if_splits)

lemma debounceTime_times:
  "r \<in> set (debounceTime d xs) \<Longrightarrow> fst r \<in> (\<lambda>e. fst e + d) ` set xs"
  by (induction d xs rule: debounceTime.induct) (auto split: if_splits)

lemma burst_until:
  "burst d b \<Longrightarrow> b \<noteq> [] \<Longrightarrow>
   debounce_until d b n = (if fst (last b) + d \<le> n then [(fst (last b) + d, snd (last b))] else [])"
  by (induction d b n rule: debounce_until.induct) auto

lemma burst_alone:
  "burst d b \<Longrightarrow> b \<noteq> [] \<Longrightarrow> debounceTime d b = [(fst (last b) + d, snd (last b))]"
  by (induction d b rule: debounceTime.induct) auto

lemma subseq_distinctUntilChanged: "subseq (distinctUntilChanged es) es"
  by (induction es rule: distinctUntilChanged.induct) (auto intro: subseq_Cons' list_emb_trans)


lemma subseq_singleton_cases: "subseq ys [e] \<Longrightarrow> ys = [] \<or> ys = [e]"
  by (cases ys) (auto split: if_splits)

lemma filter_none: "(\<And>r. r \<in> set xs \<Longrightarrow> \<not> P r) \<Longrightarrow> filter P xs = []"
  by (induction xs) auto

lemma not_from_burst:
  "fst r = fst p + 300 \<Longrightarrow> fst p \<notin> fst ` set b \<Longrightarrow> \<not> from_burst b r"
  by (auto simp add: from_burst_def image_iff)

lemma debounce_burst_in_context:
  assumes "burst 300 b" and "b \<noteq> []"
    and out: "\<And>p. p \<in> set pre \<union> set post \<Longrightarrow> fst p \<notin> fst ` set b"
  shows "subseq (filter (from_burst b) (debounceTime 300 (pre @ b @ post)))
           [(fst (last b) + 300, snd (last b))]"
proof -
  let ?e = "(fst (last b) + 300, snd (last b))"
  have pre: "filter (from_burst b) (debounce_until 300 pre n) = []" for n
  proof (rule filter_none)
    fix r assume "r \<in> set (debounce_until 300 pre n)"
    then obtain p where "p \<in> set pre" and "fst r = fst p + 300"
      using debounce_until_times by fastforce
    then show "\<not> from_burst b r"
      using out [of p] by (simp add: not_from_burst)
  qed
  have post: "filter (from_burst b) (debounceTime 300 post) = []"
  proof (rule filter_none)
    fix r assume "r \<in> set (debounceTime 300 post)"
    then obtain p where "p \<in> set post" and "fst r = fst p + 300"
      using debounceTime_times by fastforce
    then show "\<not> from_burst b r"
      using out [of p] by (simp add: not_from_burst)
  qed
  have mid: "subseq (filter (from_burst b) (debounceTime 300 (b @ post))) [?e]"
  proof (cases post)
    case Nil
    then show ?thesis
      using assms(1,2) by (simp add: burst_alone)
  next
    case (Cons q qs)
    then have "debounceTime 300 (b @ post) =
        debounce_until 300 b (fst q) @ debounceTime 300 post"
      using debounceTime_append [of post 300 b] by simp
    then show ?thesis
      using assms(1,2) post by (simp add: burst_until)
  qed
  have "debounceTime 300 (pre @ b @ post) =
      debounce_until 300 pre (fst (hd (b @ post))) @ debounceTime 300 (b @ post)"
    using debounceTime_append [of "b @ post" 300 pre] assms(2) by simp
  then show ?thesis
    using pre mid by simp
qed

text \<open>
  C3. Take a burst: terms submitted one after the other, each less than 300 ms after
  the one before, anywhere in a history (no term outside the burst is submitted at the
  very time of one of its terms). Of the searches dispatched for the whole history, at
  most one stems from a term of the burst, and that one is for the last term of the
  burst, 300 ms after it. When the burst is the whole history, exactly that search is
  dispatched.
\<close>

theorem burst_dispatches_last_only:
  assumes "burst 300 b" and "b \<noteq> []"
    and "\<forall>p \<in> set pre \<union> set post. fst p \<notin> fst ` set b"
  shows "(filter (from_burst b) (dispatched (pre @ b @ post)) = []
          \<or> filter (from_burst b) (dispatched (pre @ b @ post)) =
              [(fst (last b) + 300, snd (last b))])
         \<and> dispatched b = [(fst (last b) + 300, snd (last b))]"
proof
  have "subseq (filter (from_burst b) (dispatched (pre @ b @ post)))
          (filter (from_burst b) (debounceTime 300 (pre @ b @ post)))"
    unfolding dispatched_def by (intro subseq_filter subseq_distinctUntilChanged)
  also have "subseq \<dots> [(fst (last b) + 300, snd (last b))]"
    using assms by (intro debounce_burst_in_context) auto
  finally show "filter (from_burst b) (dispatched (pre @ b @ post)) = []
          \<or> filter (from_burst b) (dispatched (pre @ b @ post)) =
              [(fst (last b) + 300, snd (last b))]"
    by (rule subseq_singleton_cases)
  show "dispatched b = [(fst (last b) + 300, snd (last b))]"
    using assms(1,2) by (simp add: dispatched_def burst_alone)
qed

lemma dispatched_keystrokes:
  "dispatched ([(0, ''a'')] @ keystrokes @ [(2000, ''c'')]) =
     [(300, ''a''), (1550, ''bat''), (2300, ''c'')]"
  by (simp add: dispatched_def keystrokes_def)

theorem burst_dispatches_last_only_witness:
  "burst 300 keystrokes
   \<and> keystrokes \<noteq> []
   \<and> filter (from_burst keystrokes) (dispatched ([(0, ''a'')] @ keystrokes @ [(2000, ''c'')])) =
       [(1550, ''bat'')]
   \<and> dispatched keystrokes = [(1550, ''bat'')]"
proof -
  have b: "burst 300 keystrokes" and n: "keystrokes \<noteq> []"
    by (simp_all add: keystrokes_def)
  have o: "\<forall>p \<in> set [(0, ''a'')] \<union> set [(2000, ''c'')]. fst p \<notin> fst ` set keystrokes"
    by (simp add: keystrokes_def)
  have f: "filter (from_burst keystrokes) [(300, ''a''), (1550, ''bat''), (2300, ''c'')] =
      [(1550, ''bat'')]"
    by (simp add: from_burst_def keystrokes_def)
  have l: "(fst (last keystrokes) + 300, snd (last keystrokes)) = (1550, ''bat'')"
    by (simp add: keystrokes_def)
  show ?thesis
    using burst_dispatches_last_only [OF b n o] b n f l dispatched_keystrokes by simp
qed

section \<open>Unchanged terms\<close>

lemma distinctUntilChanged_repeat:
  "distinctUntilChanged (xs @ [(a, v), (b, v)]) = distinctUntilChanged (xs @ [(a, v)])"
  by (induction xs rule: distinctUntilChanged.induct) auto

text \<open>
  C7. A term that passes the quiet interval and equals the term that passed before it
  is dropped by \<open>distinctUntilChanged\<close>: the searches dispatched are the same as
  without it. The same holds on the history of submissions, when the repeated term is
  submitted at least 300 ms after the first, so that both pass the quiet interval.
\<close>

theorem repeated_term_is_suppressed:
  "distinctUntilChanged (survivors @ [(a, v), (b, v)]) = distinctUntilChanged (survivors @ [(a, v)])
   \<and> (t1 + 300 \<le> t2 \<longrightarrow>
        dispatched (input @ [(t1, v), (t2, v)]) = dispatched (input @ [(t1, v)]))"
proof (intro conjI impI)
  show "distinctUntilChanged (survivors @ [(a, v), (b, v)]) = distinctUntilChanged (survivors @ [(a, v)])"
    by (rule distinctUntilChanged_repeat)
  assume gap: "t1 + 300 \<le> t2"
  have "debounceTime 300 (input @ [(t1, v), (t2, v)]) =
      debounce_until 300 input t1 @ [(t1 + 300, v), (t2 + 300, v)]"
    using gap debounceTime_append [of "[(t1, v), (t2, v)]" 300 input] by simp
  moreover have "debounceTime 300 (input @ [(t1, v)]) =
      debounce_until 300 input t1 @ [(t1 + 300, v)]"
    using debounceTime_append [of "[(t1, v)]" 300 input] by simp
  ultimately show "dispatched (input @ [(t1, v), (t2, v)]) = dispatched (input @ [(t1, v)])"
    by (simp add: dispatched_def distinctUntilChanged_repeat)
qed


theorem repeated_term_is_suppressed_witness:
  "(400::nat) + 300 \<le> 800
   \<and> dispatched ([(0, ''a'')] @ [(400, ''ab''), (800, ''ab'')]) = [(300, ''a''), (700, ''ab'')]
   \<and> dispatched ([(0, ''a'')] @ [(400, ''ab'')]) = [(300, ''a''), (700, ''ab'')]"
proof -
  have g: "(400::nat) + 300 \<le> 800"
    by simp
  have "dispatched ([(0, ''a'')] @ [(400, ''ab'')]) = [(300, ''a''), (700, ''ab'')]"
    by (simp add: dispatched_def)
  then show ?thesis
    using repeated_term_is_suppressed [of "[]" 0 "''ab''" 0 400 800 "[(0, ''a'')]"] g
    by simp
qed

section \<open>Superseded searches\<close>

lemma debounceTime_increasing:
  "sorted (map fst es) \<Longrightarrow> 0 < d \<Longrightarrow> sorted_wrt (<) (map fst (debounceTime d es))"
proof (induction d es rule: debounceTime.induct)
  case (1 d)
  then show ?case by simp
next
  case (2 d t v)
  then show ?case by simp
next
  case (3 d t v t' v' es)
  have later: "t + d < fst r" if le: "t + d \<le> t'" and mem: "r \<in> set (debounceTime d ((t', v') # es))" for r
  proof -
    obtain e where "e \<in> set ((t', v') # es)" and "fst r = fst e + d"
      using debounceTime_times [OF mem] by blast
    moreover have "t' \<le> fst e"
      using "3.prems"(1) \<open>e \<in> set ((t', v') # es)\<close> by auto
    ultimately show ?thesis
      using le "3.prems"(2) by simp
  qed
  show ?case
    using 3 later by (auto simp del: debounceTime.simps(3) simp add: debounceTime.simps(3) [of d t v t' v' es])
qed

lemma set_distinctUntilChanged: "set (distinctUntilChanged es) \<subseteq> set es"
  by (induction es rule: distinctUntilChanged.induct) auto

lemma distinctUntilChanged_increasing:
  "sorted_wrt (<) (map fst es) \<Longrightarrow> sorted_wrt (<) (map fst (distinctUntilChanged es))"
proof (induction es rule: distinctUntilChanged.induct)
  case 1
  then show ?case by simp
next
  case (2 e)
  then show ?case by simp
next
  case (3 t v t' v' es)
  show ?case
  proof (cases "v = v'")
    case True
    then show ?thesis using 3 by auto
  next
    case False
    have "t < fst r" if "r \<in> set (distinctUntilChanged ((t', v') # es))" for r
      using that set_distinctUntilChanged [of "(t', v') # es"] "3.prems" by auto
    then show ?thesis using 3 False by auto
  qed
qed

lemma dispatched_increasing:
  "sorted (map fst input) \<Longrightarrow> sorted_wrt (<) (map fst (dispatched input))"
  by (simp add: dispatched_def debounceTime_increasing distinctUntilChanged_increasing)

lemma hung_search:
  "\<not> falsy (trim term) \<Longrightarrow> fst (searchHeroes (\<lambda>_. Hung) term s) = Silent"
  by (simp add: searchHeroes_pipe hung_pipe)

lemma search_inner_delivers:
  assumes "search_inner net t term until s = (Some (r, x), s')"
  shows "r = arrival_time net t term \<and> t \<le> r \<and> (\<forall>t'. until = Some t' \<longrightarrow> t < t' \<longrightarrow> r < t')"
proof (cases "falsy (trim term)")
  case True
  then show ?thesis
    using assms by (auto simp add: search_inner_def arrival_time_def split: prod.splits notification.splits)
next
  case False
  show ?thesis
  proof (cases "case until of None \<Rightarrow> True | Some t' \<Rightarrow> arrival_time net t term < t'")
    case True
    then show ?thesis
      using assms False
      by (auto simp add: search_inner_def arrival_time_def split: prod.splits notification.splits option.splits)
  next
    case no: False
    have "fst (searchHeroes (\<lambda>_. Hung) term s) = Silent"
      using False by (rule hung_search)
    then show ?thesis
      using assms False no
      by (auto simp add: search_inner_def split: prod.splits notification.splits)
  qed
qed

lemma switchMap_outputs:
  assumes "sorted_wrt (<) (map fst ds)"
    and "(r, t, x) \<in> set (fst (switchMap (search_inner net) ds s))"
  shows "\<exists>v. (t, v) \<in> set ds \<and> r = arrival_time net t v \<and> t \<le> r
           \<and> (\<forall>e \<in> set ds. t < fst e \<longrightarrow> r < fst e)"
  using assms
proof (induction "search_inner net" ds s rule: switchMap.induct)
  case (1 s)
  then show ?case by simp
next
  case (2 t0 v s)
  then show ?case
    by (auto split: prod.splits option.splits dest: search_inner_delivers)
next
  case (3 t0 v t' v' es s)
  obtain out s' where run: "search_inner net t0 v (Some t') s = (out, s')"
    by (cases "search_inner net t0 v (Some t') s")
  obtain rest s'' where tl: "switchMap (search_inner net) ((t', v') # es) s' = (rest, s'')"
    by (cases "switchMap (search_inner net) ((t', v') # es) s'")
  have mem: "(r, t, x) \<in> set (case out of None \<Rightarrow> [] | Some (r, x) \<Rightarrow> [(r, t0, x)]) \<or> (r, t, x) \<in> set rest"
    using "3.prems"(2) run tl by auto
  have sorted_tl: "sorted_wrt (<) (map fst ((t', v') # es))"
    using "3.prems"(1) by simp
  have lt: "t0 < t'" and lts: "\<forall>e \<in> set es. t' < fst e"
    using "3.prems"(1) by auto
  from mem show ?case
  proof
    assume "(r, t, x) \<in> set (case out of None \<Rightarrow> [] | Some (r, x) \<Rightarrow> [(r, t0, x)])"
    then have out: "out = Some (r, x)" and t: "t = t0"
      by (auto split: option.splits)
    have "r = arrival_time net t0 v \<and> t0 \<le> r \<and> r < t'"
      using search_inner_delivers [of net t0 v "Some t'" s r x s'] run out lt by simp
    then show ?thesis
      using t lts by force
  next
    assume "(r, t, x) \<in> set rest"
    then have "(r, t, x) \<in> set (fst (switchMap (search_inner net) ((t', v') # es) s'))"
      using tl by simp
    then obtain w where w: "(t, w) \<in> set ((t', v') # es)" "r = arrival_time net t w" "t \<le> r"
      "\<forall>e \<in> set ((t', v') # es). t < fst e \<longrightarrow> r < fst e"
      using "3.hyps" [OF run [symmetric] sorted_tl] by blast
    have "t0 < t"
      using w(1) lt lts by auto
    then show ?thesis
      using w by auto
  qed
qed


lemma switchMap_in_order:
  assumes "sorted_wrt (<) (map fst ds)"
  shows "sorted_wrt (\<lambda>a b. dispatched_at a < dispatched_at b \<and> observed_at a < observed_at b)
           (fst (switchMap (search_inner net) ds s))"
  using assms
proof (induction "search_inner net" ds s rule: switchMap.induct)
  case (1 s)
  then show ?case by simp
next
  case (2 t0 v s)
  then show ?case by (auto split: prod.splits option.splits)
next
  case (3 t0 v t' v' es s)
  obtain out s' where run: "search_inner net t0 v (Some t') s = (out, s')"
    by (cases "search_inner net t0 v (Some t') s")
  obtain rest s'' where tl: "switchMap (search_inner net) ((t', v') # es) s' = (rest, s'')"
    by (cases "switchMap (search_inner net) ((t', v') # es) s'")
  have sorted_tl: "sorted_wrt (<) (map fst ((t', v') # es))"
    using "3.prems" by simp
  have lt: "t0 < t'" and lts: "\<forall>e \<in> set es. t' < fst e"
    using "3.prems" by auto
  have rest_sorted: "sorted_wrt (\<lambda>a b. dispatched_at a < dispatched_at b \<and> observed_at a < observed_at b) rest"
    using "3.hyps" [OF run [symmetric] sorted_tl] tl by simp
  have later: "t0 < dispatched_at b \<and> t' \<le> observed_at b" if "b \<in> set rest" for b
  proof -
    obtain r t x where b: "b = (r, t, x)" by (cases b)
    then have "(r, t, x) \<in> set (fst (switchMap (search_inner net) ((t', v') # es) s'))"
      using that tl by simp
    then obtain w where "(t, w) \<in> set ((t', v') # es)" and "t \<le> r"
      using switchMap_outputs [OF sorted_tl] by blast
    then have "t' \<le> t"
      using lts by auto
    then show ?thesis
      using b lt \<open>t \<le> r\<close> by (simp add: dispatched_at_def observed_at_def)
  qed
  show ?case
  proof (cases out)
    case None
    then show ?thesis
      using run tl rest_sorted by simp
  next
    case (Some p)
    obtain r x where p: "p = (r, x)" by (cases p)
    have "r < t'"
      using search_inner_delivers [of net t0 v "Some t'" s r x s'] run Some p lt by simp
    then have head: "\<forall>b \<in> set rest. t0 < dispatched_at b \<and> r < observed_at b"
      using later by fastforce
    have "fst (switchMap (search_inner net) ((t0, v) # (t', v') # es) s) = (r, t0, x) # rest"
      using run tl Some p by simp
    then show ?thesis
      using rest_sorted head by (simp add: dispatched_at_def observed_at_def)
  qed
qed

lemma sorted_wrt_fst_unique:
  fixes ds :: "'a timed list"
  shows "sorted_wrt (<) (map fst ds) \<Longrightarrow> (t, v) \<in> set ds \<Longrightarrow> (t, w) \<in> set ds \<Longrightarrow> v = w"
proof (induction ds)
  case Nil
  then show ?case by simp
next
  case (Cons a ds)
  have later: "\<forall>e \<in> set ds. fst a < fst e"
    using Cons.prems(1) by simp
  have ne: "a \<noteq> (t, u')" if "(t, u) \<in> set ds" for u u'
  proof
    assume "a = (t, u')"
    moreover have "fst a < fst (t, u)"
      using later that by blast
    ultimately show False by simp
  qed
  show ?case
    using Cons ne by auto
qed

text \<open>
  C2. For a history of submissions in the order of their times, the results that the
  subscriber of \<open>heroes$\<close> observes come in the order in which their searches were
  dispatched: a result observed later belongs to a search dispatched later. If the
  answer to a dispatched search would arrive strictly after a later search was
  dispatched, the result of the earlier search is never observed.
\<close>

theorem superseded_result_is_never_observed:
  assumes "sorted (map fst input)"
  shows "sorted_wrt (\<lambda>a b. dispatched_at a < dispatched_at b \<and> observed_at a < observed_at b)
           (fst (heroes_stream net input s))
         \<and> (\<forall>d1 t1 d2 t2.
              (d1, t1) \<in> set (dispatched input) \<longrightarrow> (d2, t2) \<in> set (dispatched input)
              \<longrightarrow> d1 < d2 \<longrightarrow> d2 < arrival_time net d1 t1
              \<longrightarrow> d1 \<notin> dispatched_at ` set (fst (heroes_stream net input s)))"
proof (intro conjI allI impI)
  have inc: "sorted_wrt (<) (map fst (dispatched input))"
    using assms by (rule dispatched_increasing)
  show "sorted_wrt (\<lambda>a b. dispatched_at a < dispatched_at b \<and> observed_at a < observed_at b)
           (fst (heroes_stream net input s))"
    unfolding heroes_stream_def using inc by (rule switchMap_in_order)
  fix d1 t1 d2 t2
  assume first: "(d1, t1) \<in> set (dispatched input)"
    and second: "(d2, t2) \<in> set (dispatched input)"
    and "d1 < d2" and late: "d2 < arrival_time net d1 t1"
  show "d1 \<notin> dispatched_at ` set (fst (heroes_stream net input s))"
  proof
    assume "d1 \<in> dispatched_at ` set (fst (heroes_stream net input s))"
    then obtain r x where "(r, d1, x) \<in> set (fst (switchMap (search_inner net) (dispatched input) s))"
      by (auto simp add: heroes_stream_def dispatched_at_def)
    then obtain v where v: "(d1, v) \<in> set (dispatched input)" "r = arrival_time net d1 v"
      and before: "\<forall>e \<in> set (dispatched input). d1 < fst e \<longrightarrow> r < fst e"
      using switchMap_outputs [OF inc] by blast
    have "v = t1"
      using sorted_wrt_fst_unique [OF inc v(1) first] .
    moreover have "r < d2"
      using before second \<open>d1 < d2\<close> by force
    ultimately show False
      using v(2) late by simp
  qed
qed

lemma dispatched_typing: "dispatched typing = [(300, ''a''), (700, ''ab'')]"
  by (simp add: dispatched_def typing_def)

lemma arrival_a: "arrival_time slow_net 300 ''a'' = 800"
  by (simp add: arrival_time_def slow_net_def search_request_def falsy_def trim_def is_white_space_def)

lemma observed_typing: "fst (heroes_stream slow_net typing start) = [(800, 700, Some [alpha])]"
  by (simp add: heroes_stream_def dispatched_typing search_inner_def arrival_time_def
      slow_net_def search_request_def falsy_def trim_def is_white_space_def
      searchHeroes_def heroesUrl_def pipe_defs)

theorem superseded_result_is_never_observed_witness:
  "sorted (map fst typing)
   \<and> dispatched typing = [(300, ''a''), (700, ''ab'')]
   \<and> arrival_time slow_net 300 ''a'' = 800
   \<and> fst (heroes_stream slow_net typing start) = [(800, 700, Some [alpha])]
   \<and> 300 \<notin> dispatched_at ` set (fst (heroes_stream slow_net typing start))"
proof -
  have srt: "sorted (map fst typing)"
    by (simp add: typing_def)
  have "300 \<notin> dispatched_at ` set (fst (heroes_stream slow_net typing start))"
    using superseded_result_is_never_observed [OF srt, of slow_net start]
      dispatched_typing arrival_a
    by simp
  then show ?thesis
    using srt dispatched_typing arrival_a observed_typing by simp
qed


end
